theory Spec2Isabelle
  imports Main "HOL-Library.Sublist" "HOL-Library.Option_ord" "HOL-Library.Multiset"
begin

section \<open>Data model\<close>

text \<open>
  Modelled from the spec: \<^verbatim>\<open>blogd/models.py\<close> is imported by the views and the
  serializers but is not among the source files. The rows below carry the fields that
  \<^verbatim>\<open>serializers.py\<close> lists for each model (\<^verbatim>\<open>Meta.fields\<close>) and that the spec's data
  model names. A foreign key is the primary key of the row it points to, a timestamp is
  an integer number of seconds, a nullable column is an \<open>option\<close>.
\<close>

record user =
  user_id :: nat
  username :: string
  password :: string
  email :: string
  first_name :: string
  last_name :: string
  is_staff :: bool

record user_profile =
  profile_user :: nat
  is_blog_admin :: bool

record blog_category =
  category_id :: nat
  category_name :: string

record blog_post =
  post_id :: nat
  title :: string
  content :: string
  post_author :: nat
  post_category :: "nat option"
  post_created_at :: int
  updated_at :: int
  published :: bool
  published_date :: "int option"
  featured_image :: string
  slug :: string

record comment =
  comment_id :: nat
  comment_post :: nat
  comment_author :: nat
  comment_content :: string
  comment_created_at :: int
  approved :: bool

record like =
  like_id :: nat
  like_post :: nat
  like_user :: nat
  like_created_at :: int

text \<open>The database: one list of rows per table, in insertion order.\<close>

record db =
  users :: "user list"
  profiles :: "user_profile list"
  categories :: "blog_category list"
  posts :: "blog_post list"
  comments :: "comment list"
  likes :: "like list"

text \<open>\<^verbatim>\<open>request.user\<close>: the anonymous user or a row of the user table.\<close>

datatype request_user = AnonymousUser | Authenticated user

datatype http_method = GET | POST | PUT | PATCH | DELETE

text \<open>
  Every exception a view can end with is a value. \<open>ValidationError\<close> (HTTP 400),
  \<open>NotAuthenticated\<close> (401), \<open>PermissionDenied\<close> (403) and \<open>Http404\<close> (404) are the
  framework's exceptions that the source raises or lets the framework raise; they are
  the spec's ValidationError, AuthenticationError, PermissionError and NotFoundError.
  \<open>ConflictError\<close> is the spec's fifth error (HTTP 409); it is here so that claims
  about it can be stated. The remaining constructors are Python and ORM exceptions that
  no handler catches (HTTP 500). The name \<^verbatim>\<open>permissions.PermissionDenied\<close> of the source
  is read as the framework's PermissionDenied exception.
\<close>

datatype error =
    ValidationError
  | NotAuthenticated
  | PermissionDenied
  | Http404
  | ConflictError
  | DoesNotExist
  | MultipleObjectsReturned
  | RecursionError
  | ValueError
  | TypeError

section \<open>Framework operations used by the source\<close>

text \<open>
  \<^verbatim>\<open>Model.objects.get(...)\<close> on the rows that satisfy the lookup: exactly one row is
  returned, none raises DoesNotExist, several raise MultipleObjectsReturned.
\<close>

fun objects_get :: "'a list \<Rightarrow> error + 'a" where
  "objects_get [] = Inl DoesNotExist"
| "objects_get [x] = Inr x"
| "objects_get (x # y # zs) = Inl MultipleObjectsReturned"

text \<open>\<^verbatim>\<open>get_object_or_404\<close>: as \<open>get\<close>, with DoesNotExist turned into Http404.\<close>

definition get_object_or_404 :: "'a list \<Rightarrow> error + 'a" where
  "get_object_or_404 rows =
     (case objects_get rows of
        Inl DoesNotExist \<Rightarrow> Inl Http404
      | Inl e \<Rightarrow> Inl e
      | Inr x \<Rightarrow> Inr x)"

text \<open>
  \<^verbatim>\<open>order_by('-field')\<close>: descending by the key. The order of rows with equal keys is
  left to the database; the model fixes one.
\<close>

definition order_by_desc :: "('a \<Rightarrow> 'k::linorder) \<Rightarrow> 'a list \<Rightarrow> 'a list" where
  "order_by_desc key rows = rev (sort_key key rows)"

text \<open>A fresh primary key: one more than the largest key of the table.\<close>

definition next_id :: "nat list \<Rightarrow> nat" where
  "next_id ids = Suc (fold max ids 0)"

text \<open>\<^verbatim>\<open>UserProfile.objects.get(user=request.user)\<close>, as the views call it. The anonymous
  user is no row of the user table: the lookup raises TypeError.\<close>

fun get_profile :: "db \<Rightarrow> request_user \<Rightarrow> error + user_profile" where
  "get_profile d AnonymousUser = Inl TypeError"
| "get_profile d (Authenticated usr) =
     objects_get (filter (\<lambda>p. profile_user p = user_id usr) (profiles d))"

text \<open>
  The permission classes the source names, and the framework's \<^verbatim>\<open>check_permissions\<close>:
  the first class that refuses ends the request, with NotAuthenticated for an anonymous
  caller and PermissionDenied for an authenticated one.
\<close>

datatype permission = AllowAny | IsAuthenticated | IsAdminUser

fun has_permission :: "permission \<Rightarrow> request_user \<Rightarrow> bool" where
  "has_permission AllowAny u = True"
| "has_permission IsAuthenticated AnonymousUser = False"
| "has_permission IsAuthenticated (Authenticated usr) = True"
| "has_permission IsAdminUser AnonymousUser = False"
| "has_permission IsAdminUser (Authenticated usr) = is_staff usr"

fun check_permissions :: "permission list \<Rightarrow> request_user \<Rightarrow> error + unit" where
  "check_permissions [] u = Inr ()"
| "check_permissions (p # ps) u =
     (if has_permission p u then check_permissions ps u
      else Inl (case u of AnonymousUser \<Rightarrow> NotAuthenticated | Authenticated usr \<Rightarrow> PermissionDenied))"

section \<open>Serializers\<close>

subsection \<open>BlogPostSerializer: the derived read fields\<close>

text \<open>
  \<^verbatim>\<open>obj.comments\<close> and \<^verbatim>\<open>obj.likes\<close> are the reverse relations of the post: the comments
  and the likes whose post is \<open>obj\<close>. The serializer context may hold no request.
\<close>

definition get_comments_count :: "db \<Rightarrow> blog_post \<Rightarrow> nat" where
  "get_comments_count d obj =
     length (filter approved (filter (\<lambda>c. comment_post c = post_id obj) (comments d)))"

definition get_likes_count :: "db \<Rightarrow> blog_post \<Rightarrow> nat" where
  "get_likes_count d obj = length (filter (\<lambda>l. like_post l = post_id obj) (likes d))"

definition get_is_liked :: "db \<Rightarrow> request_user option \<Rightarrow> blog_post \<Rightarrow> bool" where
  "get_is_liked d request obj =
     (case request of
        Some (Authenticated usr) \<Rightarrow>
          filter (\<lambda>l. like_user l = user_id usr)
            (filter (\<lambda>l. like_post l = post_id obj) (likes d)) \<noteq> []
      | _ \<Rightarrow> False)"

record post_representation =
  rep_post :: blog_post
  comments_count :: nat
  likes_count :: nat
  is_liked :: bool

definition to_representation :: "db \<Rightarrow> request_user option \<Rightarrow> blog_post \<Rightarrow> post_representation" where
  "to_representation d request obj =
     \<lparr> rep_post = obj,
       comments_count = get_comments_count d obj,
       likes_count = get_likes_count d obj,
       is_liked = get_is_liked d request obj \<rparr>"

subsection \<open>UserRegisterSerializer\<close>

text \<open>
  The request body of registration: each key may be absent. \<open>username\<close> and
  \<open>password\<close> are required by the model serializer and by the declared field,
  \<open>email\<close>, \<open>first_name\<close> and \<open>last_name\<close> by \<^verbatim>\<open>extra_kwargs\<close>; \<open>is_blog_admin\<close>
  is optional with default False. The username must be unused (the user model's unique
  constraint, checked by the serializer). The remaining field validators of the
  framework's user model (lengths, character sets, e-mail syntax) are the parameter
  \<open>field_validators\<close>.
\<close>

record register_data =
  reg_username :: "string option"
  reg_password :: "string option"
  reg_email :: "string option"
  reg_first_name :: "string option"
  reg_last_name :: "string option"
  reg_is_blog_admin :: "bool option"

record register_validated =
  v_username :: string
  v_password :: string
  v_email :: string
  v_first_name :: string
  v_last_name :: string
  v_is_blog_admin :: bool

definition register_is_valid ::
  "(register_data \<Rightarrow> bool) \<Rightarrow> db \<Rightarrow> register_data \<Rightarrow> register_validated option" where
  "register_is_valid field_validators d r =
     (case reg_username r of None \<Rightarrow> None | Some un \<Rightarrow>
      case reg_password r of None \<Rightarrow> None | Some pw \<Rightarrow>
      case reg_email r of None \<Rightarrow> None | Some em \<Rightarrow>
      case reg_first_name r of None \<Rightarrow> None | Some fn \<Rightarrow>
      case reg_last_name r of None \<Rightarrow> None | Some ln \<Rightarrow>
        if field_validators r \<and> un \<notin> set (map username (users d))
        then Some \<lparr> v_username = un, v_password = pw, v_email = em, v_first_name = fn,
               v_last_name = ln,
               v_is_blog_admin = (case reg_is_blog_admin r of None \<Rightarrow> False | Some b \<Rightarrow> b) \<rparr>
        else None)"

text \<open>
  \<^verbatim>\<open>create\<close>: \<^verbatim>\<open>create_user\<close> inserts the user (never staff), then the profile row is
  inserted. The stored password stands for its hash.
\<close>

definition register_create :: "db \<Rightarrow> register_validated \<Rightarrow> db \<times> user" where
  "register_create d v =
     (let is_admin = v_is_blog_admin v;
          usr = \<lparr> user_id = next_id (map user_id (users d)), username = v_username v,
                  password = v_password v, email = v_email v,
                  first_name = v_first_name v, last_name = v_last_name v,
                  is_staff = False \<rparr>
      in (d\<lparr> users := users d @ [usr],
             profiles := profiles d @ [\<lparr> profile_user = user_id usr, is_blog_admin = is_admin \<rparr>] \<rparr>,
          usr))"

subsection \<open>CommentSerializer\<close>




section \<open>Views\<close>

subsection \<open>Registration\<close>

text \<open>
  \<^verbatim>\<open>UserRegisterView.post\<close>: an invalid body is answered with the serializer's errors
  and status 400, a valid one creates the user. The token of the response is not stored
  in the model.
\<close>

definition register_post ::
  "(register_data \<Rightarrow> bool) \<Rightarrow> db \<Rightarrow> register_data \<Rightarrow> error + db \<times> user" where
  "register_post field_validators d r =
     (case register_is_valid field_validators d r of
        Some v \<Rightarrow> Inr (register_create d v)
      | None \<Rightarrow> Inl ValidationError)"

subsection \<open>Categories\<close>






subsection \<open>Posts: list, create, latest, admin list\<close>
















subsection \<open>Comments: list, create, approve\<close>

definition comment_list_get_queryset :: "db \<Rightarrow> nat \<Rightarrow> comment list" where
  "comment_list_get_queryset d pid =
     order_by_desc comment_created_at
       (filter (\<lambda>c. comment_post c = pid \<and> approved c) (comments d))"

definition comment_list :: "db \<Rightarrow> request_user \<Rightarrow> nat \<Rightarrow> error + comment list" where
  "comment_list d u pid =
     (case check_permissions [IsAuthenticated] u of Inl e \<Rightarrow> Inl e
      | Inr _ \<Rightarrow> Inr (comment_list_get_queryset d pid))"



text \<open>
  \<^verbatim>\<open>comment.save()\<close> writes the row with the comment's primary key.
  \<^verbatim>\<open>ApproveCommentView.patch\<close> checks the profile first, then fetches the comment.
\<close>

definition comment_save :: "comment \<Rightarrow> comment list \<Rightarrow> comment list" where
  "comment_save c rows = map (\<lambda>x. if comment_id x = comment_id c then c else x) rows"

definition approve_patch :: "db \<Rightarrow> request_user \<Rightarrow> nat \<Rightarrow> error + db" where
  "approve_patch d u pk =
     (case get_profile d u of Inl e \<Rightarrow> Inl e
      | Inr profile \<Rightarrow>
          if \<not> is_blog_admin profile then Inl PermissionDenied
          else (case get_object_or_404 (filter (\<lambda>c. comment_id c = pk) (comments d)) of
                  Inl e \<Rightarrow> Inl e
                | Inr comment \<Rightarrow>
                    Inr (d\<lparr> comments := comment_save (comment\<lparr> approved := True \<rparr>) (comments d) \<rparr>)))"

definition approve :: "db \<Rightarrow> request_user \<Rightarrow> nat \<Rightarrow> error + db" where
  "approve d u pk =
     (case check_permissions [IsAuthenticated] u of Inl e \<Rightarrow> Inl e
      | Inr _ \<Rightarrow> approve_patch d u pk)"

subsection \<open>Likes\<close>

definition like_perform_create :: "int \<Rightarrow> db \<Rightarrow> request_user \<Rightarrow> nat \<Rightarrow> error + db" where
  "like_perform_create now d u pid =
     (case get_object_or_404 (filter (\<lambda>p. post_id p = pid) (posts d)) of Inl e \<Rightarrow> Inl e
      | Inr post \<Rightarrow>
     (case u of AnonymousUser \<Rightarrow> Inl TypeError
      | Authenticated usr \<Rightarrow>
          if filter (\<lambda>l. like_post l = post_id post \<and> like_user l = user_id usr) (likes d) \<noteq> []
          then Inl ValidationError
          else Inr (d\<lparr> likes := likes d @
                      [\<lparr> like_id = next_id (map like_id (likes d)), like_post = post_id post,
                         like_user = user_id usr, like_created_at = now \<rparr>] \<rparr>)))"

definition like_create :: "int \<Rightarrow> db \<Rightarrow> request_user \<Rightarrow> nat \<Rightarrow> error + db" where
  "like_create now d u pid =
     (case check_permissions [IsAuthenticated] u of Inl e \<Rightarrow> Inl e
      | Inr _ \<Rightarrow> like_perform_create now d u pid)"

text \<open>
  \<^verbatim>\<open>LikeDeleteView\<close>: \<^verbatim>\<open>get_object\<close> resolves the post, then the like of the pair; the
  framework's \<^verbatim>\<open>destroy\<close> deletes the row with the primary key of the like it got.
\<close>

definition like_get_object :: "db \<Rightarrow> request_user \<Rightarrow> nat \<Rightarrow> error + like" where
  "like_get_object d u pid =
     (case get_object_or_404 (filter (\<lambda>p. post_id p = pid) (posts d)) of Inl e \<Rightarrow> Inl e
      | Inr post \<Rightarrow>
     (case u of AnonymousUser \<Rightarrow> Inl TypeError
      | Authenticated usr \<Rightarrow>
          get_object_or_404
            (filter (\<lambda>l. like_post l = post_id post \<and> like_user l = user_id usr) (likes d))))"

definition like_delete :: "db \<Rightarrow> request_user \<Rightarrow> nat \<Rightarrow> error + db" where
  "like_delete d u pid =
     (case check_permissions [IsAuthenticated] u of Inl e \<Rightarrow> Inl e
      | Inr _ \<Rightarrow>
     (case like_get_object d u pid of Inl e \<Rightarrow> Inl e
      | Inr instance \<Rightarrow>
          Inr (d\<lparr> likes := filter (\<lambda>l. like_id l \<noteq> like_id instance) (likes d) \<rparr>)))"

subsection \<open>Detail views of posts and comments\<close>

text \<open>
  The framework's \<^verbatim>\<open>get_object\<close> of a generic view looks the row up with
  \<^verbatim>\<open>get_object_or_404\<close> and then calls \<^verbatim>\<open>check_object_permissions\<close>, which asks
  \<^verbatim>\<open>self.get_permissions()\<close> for the permission objects. Both detail views override
  \<^verbatim>\<open>get_permissions\<close> and call \<^verbatim>\<open>self.get_object()\<close> in it, so the two methods call each
  other. Python bounds the depth of the call stack (\<^verbatim>\<open>sys.getrecursionlimit\<close>): the
  first argument of the functions below is the depth that is left, and a call with none
  left raises RecursionError. The object-level check of the three permission classes
  used here is the default one, which allows.
\<close>

definition has_object_permission :: "permission \<Rightarrow> request_user \<Rightarrow> bool" where
  "has_object_permission p u = True"

fun check_object_permissions :: "permission list \<Rightarrow> request_user \<Rightarrow> error + unit" where
  "check_object_permissions [] u = Inr ()"
| "check_object_permissions (p # ps) u =
     (if has_object_permission p u then check_object_permissions ps u
      else Inl (case u of AnonymousUser \<Rightarrow> NotAuthenticated | Authenticated usr \<Rightarrow> PermissionDenied))"

text \<open>\<^verbatim>\<open>obj.author != self.request.user\<close>: users are compared by primary key.\<close>

fun author_differs :: "nat \<Rightarrow> request_user \<Rightarrow> bool" where
  "author_differs a AnonymousUser = True"
| "author_differs a (Authenticated usr) = (a \<noteq> user_id usr)"

fun post_detail_get_permissions ::
    "nat \<Rightarrow> db \<Rightarrow> request_user \<Rightarrow> http_method \<Rightarrow> nat \<Rightarrow> error + permission list"
  and post_detail_get_object ::
    "nat \<Rightarrow> db \<Rightarrow> request_user \<Rightarrow> http_method \<Rightarrow> nat \<Rightarrow> error + blog_post" where
  "post_detail_get_permissions 0 d u m pk = Inl RecursionError"
| "post_detail_get_permissions (Suc depth) d u m pk =
     (if m \<in> {PUT, PATCH, DELETE} then
        (case post_detail_get_object depth d u m pk of Inl e \<Rightarrow> Inl e
         | Inr obj \<Rightarrow>
        (case get_profile d u of Inl e \<Rightarrow> Inl e
         | Inr profile \<Rightarrow>
             if author_differs (post_author obj) u \<and> \<not> is_blog_admin profile
             then Inl PermissionDenied
             else Inr [IsAuthenticated]))
      else Inr [IsAuthenticated])"
| "post_detail_get_object 0 d u m pk = Inl RecursionError"
| "post_detail_get_object (Suc depth) d u m pk =
     (case get_object_or_404 (filter (\<lambda>p. post_id p = pk) (posts d)) of Inl e \<Rightarrow> Inl e
      | Inr obj \<Rightarrow>
     (case post_detail_get_permissions depth d u m pk of Inl e \<Rightarrow> Inl e
      | Inr perms \<Rightarrow>
     (case check_object_permissions perms u of Inl e \<Rightarrow> Inl e
      | Inr _ \<Rightarrow> Inr obj)))"

text \<open>
  The writable fields of a post as an update supplies them (all of them in a valid PUT,
  any of them in a PATCH); the body is \<open>None\<close> when \<^verbatim>\<open>is_valid\<close> refuses it. A request
  first passes \<^verbatim>\<open>check_permissions\<close> on the result of \<^verbatim>\<open>get_permissions\<close>, then the
  handler fetches the object and writes.
\<close>

record post_patch =
  pp_title :: "string option"
  pp_content :: "string option"
  pp_published :: "bool option"
  pp_published_date :: "int option option"
  pp_featured_image :: "string option"
  pp_slug :: "string option"

definition apply_post_patch :: "int \<Rightarrow> post_patch \<Rightarrow> blog_post \<Rightarrow> blog_post" where
  "apply_post_patch now pp obj =
     obj\<lparr> title := (case pp_title pp of None \<Rightarrow> title obj | Some x \<Rightarrow> x),
          content := (case pp_content pp of None \<Rightarrow> content obj | Some x \<Rightarrow> x),
          published := (case pp_published pp of None \<Rightarrow> published obj | Some x \<Rightarrow> x),
          published_date :=
            (case pp_published_date pp of None \<Rightarrow> published_date obj | Some x \<Rightarrow> x),
          featured_image :=
            (case pp_featured_image pp of None \<Rightarrow> featured_image obj | Some x \<Rightarrow> x),
          slug := (case pp_slug pp of None \<Rightarrow> slug obj | Some x \<Rightarrow> x),
          updated_at := now \<rparr>"

definition post_update ::
  "nat \<Rightarrow> int \<Rightarrow> db \<Rightarrow> request_user \<Rightarrow> http_method \<Rightarrow> nat \<Rightarrow> post_patch option \<Rightarrow> error + db" where
  "post_update depth now d u m pk body =
     (case post_detail_get_permissions depth d u m pk of Inl e \<Rightarrow> Inl e
      | Inr perms \<Rightarrow>
     (case check_permissions perms u of Inl e \<Rightarrow> Inl e
      | Inr _ \<Rightarrow>
     (case post_detail_get_object depth d u m pk of Inl e \<Rightarrow> Inl e
      | Inr obj \<Rightarrow>
     (case body of None \<Rightarrow> Inl ValidationError
      | Some pp \<Rightarrow>
          Inr (d\<lparr> posts := map (\<lambda>p. if post_id p = post_id obj
                                    then apply_post_patch now pp obj else p) (posts d) \<rparr>)))))"

text \<open>Deleting a post deletes its comments and likes with it (cascade, as the spec has it).\<close>

definition post_destroy :: "nat \<Rightarrow> db \<Rightarrow> request_user \<Rightarrow> nat \<Rightarrow> error + db" where
  "post_destroy depth d u pk =
     (case post_detail_get_permissions depth d u DELETE pk of Inl e \<Rightarrow> Inl e
      | Inr perms \<Rightarrow>
     (case check_permissions perms u of Inl e \<Rightarrow> Inl e
      | Inr _ \<Rightarrow>
     (case post_detail_get_object depth d u DELETE pk of Inl e \<Rightarrow> Inl e
      | Inr obj \<Rightarrow>
          Inr (d\<lparr> posts := filter (\<lambda>p. post_id p \<noteq> post_id obj) (posts d),
                  comments := filter (\<lambda>c. comment_post c \<noteq> post_id obj) (comments d),
                  likes := filter (\<lambda>l. like_post l \<noteq> post_id obj) (likes d) \<rparr>))))"

text \<open>\<^verbatim>\<open>CommentDetailView.get_permissions\<close> fetches the object for every method.\<close>

fun comment_detail_get_permissions ::
    "nat \<Rightarrow> db \<Rightarrow> request_user \<Rightarrow> http_method \<Rightarrow> nat \<Rightarrow> error + permission list"
  and comment_detail_get_object ::
    "nat \<Rightarrow> db \<Rightarrow> request_user \<Rightarrow> http_method \<Rightarrow> nat \<Rightarrow> error + comment" where
  "comment_detail_get_permissions 0 d u m pk = Inl RecursionError"
| "comment_detail_get_permissions (Suc depth) d u m pk =
     (case comment_detail_get_object depth d u m pk of Inl e \<Rightarrow> Inl e
      | Inr obj \<Rightarrow>
          if m \<in> {PUT, PATCH, DELETE} then
            (case get_profile d u of Inl e \<Rightarrow> Inl e
             | Inr profile \<Rightarrow>
                 if author_differs (comment_author obj) u \<and> \<not> is_blog_admin profile
                 then Inl PermissionDenied
                 else Inr [IsAuthenticated])
          else Inr [IsAuthenticated])"
| "comment_detail_get_object 0 d u m pk = Inl RecursionError"
| "comment_detail_get_object (Suc depth) d u m pk =
     (case get_object_or_404 (filter (\<lambda>c. comment_id c = pk) (comments d)) of Inl e \<Rightarrow> Inl e
      | Inr obj \<Rightarrow>
     (case comment_detail_get_permissions depth d u m pk of Inl e \<Rightarrow> Inl e
      | Inr perms \<Rightarrow>
     (case check_object_permissions perms u of Inl e \<Rightarrow> Inl e
      | Inr _ \<Rightarrow> Inr obj)))"

record comment_patch =
  cp_content :: "string option"
  cp_approved :: "bool option"

definition apply_comment_patch :: "comment_patch \<Rightarrow> comment \<Rightarrow> comment" where
  "apply_comment_patch cp obj =
     obj\<lparr> comment_content := (case cp_content cp of None \<Rightarrow> comment_content obj | Some x \<Rightarrow> x),
          approved := (case cp_approved cp of None \<Rightarrow> approved obj | Some x \<Rightarrow> x) \<rparr>"

definition comment_update ::
  "nat \<Rightarrow> db \<Rightarrow> request_user \<Rightarrow> http_method \<Rightarrow> nat \<Rightarrow> comment_patch option \<Rightarrow> error + db" where
  "comment_update depth d u m pk body =
     (case comment_detail_get_permissions depth d u m pk of Inl e \<Rightarrow> Inl e
      | Inr perms \<Rightarrow>
     (case check_permissions perms u of Inl e \<Rightarrow> Inl e
      | Inr _ \<Rightarrow>
     (case comment_detail_get_object depth d u m pk of Inl e \<Rightarrow> Inl e
      | Inr obj \<Rightarrow>
     (case body of None \<Rightarrow> Inl ValidationError
      | Some cp \<Rightarrow>
          Inr (d\<lparr> comments := comment_save (apply_comment_patch cp obj) (comments d) \<rparr>)))))"

definition comment_destroy :: "nat \<Rightarrow> db \<Rightarrow> request_user \<Rightarrow> nat \<Rightarrow> error + db" where
  "comment_destroy depth d u pk =
     (case comment_detail_get_permissions depth d u DELETE pk of Inl e \<Rightarrow> Inl e
      | Inr perms \<Rightarrow>
     (case check_permissions perms u of Inl e \<Rightarrow> Inl e
      | Inr _ \<Rightarrow>
     (case comment_detail_get_object depth d u DELETE pk of Inl e \<Rightarrow> Inl e
      | Inr obj \<Rightarrow>
          Inr (d\<lparr> comments := filter (\<lambda>c. comment_id c \<noteq> comment_id obj) (comments d) \<rparr>))))"

section \<open>Example data\<close>

definition alice :: user where
  "alice = \<lparr> user_id = 1, username = ''alice'', password = ''pw'', email = ''a@x.io'',
     first_name = ''Alice'', last_name = ''A'', is_staff = False \<rparr>"

definition bob :: user where
  "bob = \<lparr> user_id = 2, username = ''bob'', password = ''pw'', email = ''b@x.io'',
     first_name = ''Bob'', last_name = ''B'', is_staff = False \<rparr>"

definition carol :: user where
  "carol = \<lparr> user_id = 3, username = ''carol'', password = ''pw'', email = ''c@x.io'',
     first_name = ''Carol'', last_name = ''C'', is_staff = True \<rparr>"

definition post1 :: blog_post where
  "post1 = \<lparr> post_id = 1, title = ''Hello World'', content = ''first words'',
     post_author = 1, post_category = Some 1, post_created_at = 100, updated_at = 100,
     published = True, published_date = Some 100, featured_image = [], slug = ''hello'' \<rparr>"

definition post2 :: blog_post where
  "post2 = \<lparr> post_id = 2, title = ''Draft'', content = ''not yet'',
     post_author = 1, post_category = None, post_created_at = 200, updated_at = 200,
     published = False, published_date = None, featured_image = [], slug = ''draft'' \<rparr>"

definition post3 :: blog_post where
  "post3 = \<lparr> post_id = 3, title = ''Later'', content = ''second'',
     post_author = 1, post_category = Some 2, post_created_at = 300, updated_at = 300,
     published = True, published_date = Some 5000000, featured_image = [], slug = ''later'' \<rparr>"

definition comment1 :: comment where
  "comment1 = \<lparr> comment_id = 1, comment_post = 1, comment_author = 2,
     comment_content = ''nice'', comment_created_at = 150, approved = False \<rparr>"

definition comment2 :: comment where
  "comment2 = \<lparr> comment_id = 2, comment_post = 1, comment_author = 3,
     comment_content = ''agreed'', comment_created_at = 160, approved = True \<rparr>"

definition like1 :: like where
  "like1 = \<lparr> like_id = 1, like_post = 1, like_user = 2, like_created_at = 170 \<rparr>"

text \<open>
  Alice is a blog admin, Bob is neither blog admin nor staff, Carol is staff and not a
  blog admin.
\<close>

definition db0 :: db where
  "db0 = \<lparr> users = [alice, bob, carol],
     profiles = [\<lparr> profile_user = 1, is_blog_admin = True \<rparr>,
                 \<lparr> profile_user = 2, is_blog_admin = False \<rparr>,
                 \<lparr> profile_user = 3, is_blog_admin = False \<rparr>],
     categories = [\<lparr> category_id = 1, category_name = ''Tech'' \<rparr>],
     posts = [post1, post2, post3],
     comments = [comment1, comment2],
     likes = [like1] \<rparr>"



definition reg_dave :: register_data where
  "reg_dave = \<lparr> reg_username = Some ''dave'', reg_password = Some ''pw'',
     reg_email = Some ''d@x.io'', reg_first_name = Some ''Dave'', reg_last_name = Some ''D'',
     reg_is_blog_admin = None \<rparr>"

text \<open>
  A stand-in for the field validators of the user model that accepts every body, and a
  stand-in for Python's \<^verbatim>\<open>int()\<close> that knows the strings \<^verbatim>\<open>"1"\<close> and \<^verbatim>\<open>"2"\<close>.
\<close>

definition any_fields :: "register_data \<Rightarrow> bool" where
  "any_fields r = True"



section \<open>Notions of the statements\<close>

text \<open>
  The likes of a (post, user) pair; and, following the words of the spec for the post
  list, when the \<open>category\<close> parameter and when the \<open>search\<close> parameter let a post
  through: an absent or empty parameter lets every post through.
\<close>

definition likes_of :: "db \<Rightarrow> nat \<Rightarrow> user \<Rightarrow> like list" where
  "likes_of d pid usr = filter (\<lambda>l. like_post l = pid \<and> like_user l = user_id usr) (likes d)"



section \<open>Derived read fields of a post\<close>

text \<open>
  C8. In the representation of a post \<open>P\<close>, \<open>comments_count\<close> is the number of comments
  on \<open>P\<close> that are approved, \<open>likes_count\<close> is the number of likes on \<open>P\<close>, and
  \<open>is_liked\<close> holds for an authenticated requesting user \<open>A\<close> exactly when some like of
  \<open>A\<close> on \<open>P\<close> exists; it is false for the anonymous user and when the serializer has
  no request.
\<close>

theorem derived_fields_of_post:
  "comments_count (to_representation d request P) =
     length (filter (\<lambda>c. comment_post c = post_id P \<and> approved c) (comments d))
   \<and> likes_count (to_representation d request P) =
     length (filter (\<lambda>l. like_post l = post_id P) (likes d))
   \<and> (is_liked (to_representation d (Some (Authenticated A)) P) \<longleftrightarrow>
        (\<exists>l \<in> set (likes d). like_post l = post_id P \<and> like_user l = user_id A))
   \<and> \<not> is_liked (to_representation d (Some AnonymousUser) P)
   \<and> \<not> is_liked (to_representation d None P)"
proof -
  have cnt: "filter approved (filter (\<lambda>c. comment_post c = post_id P) (comments d)) =
      filter (\<lambda>c. comment_post c = post_id P \<and> approved c) (comments d)"
    by (simp add: conj_commute)
  have liked: "(filter (\<lambda>l. like_user l = user_id A)
        (filter (\<lambda>l. like_post l = post_id P) (likes d)) \<noteq> []) \<longleftrightarrow>
      (\<exists>l \<in> set (likes d). like_post l = post_id P \<and> like_user l = user_id A)"
    by (auto simp: filter_empty_conv)
  show ?thesis
    unfolding to_representation_def get_comments_count_def get_likes_count_def
      get_is_liked_def
    using cnt liked by simp
qed

theorem derived_fields_of_post_witness:
  "comments_count (to_representation db0 (Some (Authenticated bob)) post1) = 1
   \<and> likes_count (to_representation db0 (Some (Authenticated bob)) post1) = 1
   \<and> is_liked (to_representation db0 (Some (Authenticated bob)) post1)
   \<and> \<not> is_liked (to_representation db0 (Some (Authenticated alice)) post1)
   \<and> \<not> is_liked (to_representation db0 (Some AnonymousUser) post1)"
  using derived_fields_of_post [of db0 "Some (Authenticated bob)" post1 bob]
    derived_fields_of_post [of db0 "Some (Authenticated alice)" post1 alice]
  by (simp add: db0_def post1_def bob_def alice_def like1_def comment1_def comment2_def)

section \<open>Facts about the example data\<close>

lemma db0_profile_alice:
  "get_profile db0 (Authenticated alice) = Inr \<lparr> profile_user = 1, is_blog_admin = True \<rparr>"
  by (simp add: db0_def alice_def)



lemma db0_comment1: "filter (\<lambda>x. comment_id x = 1) (comments db0) = [comment1]"
  by (simp add: db0_def comment1_def comment2_def)

lemma db0_post1: "filter (\<lambda>p. post_id p = 1) (posts db0) = [post1]"
  by (simp add: db0_def post1_def post2_def post3_def)

lemma db0_count_post1: "get_comments_count db0 post1 = 1"
  by (simp add: get_comments_count_def db0_def post1_def comment1_def comment2_def)

section \<open>Approving a comment\<close>

lemma filter_singleton: "filter P xs = [c] \<Longrightarrow> P c \<and> c \<in> set xs"
proof -
  assume "filter P xs = [c]"
  then have "c \<in> set (filter P xs)" by simp
  then show ?thesis by simp
qed

lemma comment_save_absent:
  "filter (\<lambda>x. comment_id x = comment_id c') rows = [] \<Longrightarrow> comment_save c' rows = rows"
  by (induction rows) (auto simp: comment_save_def split: if_splits)

lemma comment_save_lookup:
  "filter (\<lambda>x. comment_id x = comment_id c') rows = [c] \<Longrightarrow>
   filter (\<lambda>x. comment_id x = comment_id c') (comment_save c' rows) = [c']"
proof (induction rows)
  case Nil
  then show ?case by simp
next
  case (Cons x xs)
  show ?case
  proof (cases "comment_id x = comment_id c'")
    case True
    with Cons.prems have "filter (\<lambda>x. comment_id x = comment_id c') xs = []" by simp
    then have "comment_save c' xs = xs" by (rule comment_save_absent)
    with True Cons.prems show ?thesis by (simp add: comment_save_def)
  next
    case False
    with Cons show ?thesis by (simp add: comment_save_def)
  qed
qed

lemma comment_save_twice: "comment_save c' (comment_save c' rows) = comment_save c' rows"
  by (induction rows) (auto simp: comment_save_def)

lemma comment_save_same:
  "filter (\<lambda>x. comment_id x = comment_id c) rows = [c] \<Longrightarrow> comment_save c rows = rows"
proof (induction rows)
  case Nil
  then show ?case by simp
next
  case (Cons x xs)
  show ?case
  proof (cases "comment_id x = comment_id c")
    case True
    with Cons.prems have "x = c" "filter (\<lambda>x. comment_id x = comment_id c) xs = []" by simp_all
    then show ?thesis using comment_save_absent [of c xs] by (simp add: comment_save_def)
  next
    case False
    with Cons show ?thesis by (simp add: comment_save_def)
  qed
qed

lemma count_after_approval:
  "filter (\<lambda>x. comment_id x = comment_id c) rows = [c] \<Longrightarrow>
   length (filter approved (filter (\<lambda>x. comment_post x = q)
      (comment_save (c\<lparr> approved := True \<rparr>) rows))) =
   (if \<not> approved c \<and> comment_post c = q then 1 else 0)
     + length (filter approved (filter (\<lambda>x. comment_post x = q) rows))"
proof (induction rows)
  case Nil
  then show ?case by simp
next
  case (Cons x xs)
  show ?case
  proof (cases "comment_id x = comment_id c")
    case True
    with Cons.prems have xc: "x = c" and none: "filter (\<lambda>x. comment_id x = comment_id c) xs = []"
      by simp_all
    from none have "comment_save (c\<lparr> approved := True \<rparr>) xs = xs"
      using comment_save_absent [of "c\<lparr> approved := True \<rparr>" xs] by simp
    with xc show ?thesis by (simp add: comment_save_def)
  next
    case False
    with Cons.prems have "filter (\<lambda>x. comment_id x = comment_id c) xs = [c]" by simp
    from Cons.IH [OF this] False show ?thesis by (simp add: comment_save_def)
  qed
qed

lemma get_profile_authenticated:
  "get_profile d u = Inr profile \<Longrightarrow> check_permissions [IsAuthenticated] u = Inr ()"
  by (cases u) simp_all

text \<open>
  C9. For a blog admin and an existing comment, \<open>approve\<close> succeeds and leaves the
  comment with \<open>approved = True\<close>; approving again succeeds and changes nothing; when the
  comment was already approved the first call changes nothing either. The
  \<open>comments_count\<close> of the comment's post grows by exactly one on the approval of a
  comment that was not approved, and a repeated approval returns the same database, so
  the count stays.
\<close>

theorem approve_sets_flag_and_is_idempotent:
  assumes "get_profile d u = Inr profile" and "is_blog_admin profile"
    and "filter (\<lambda>x. comment_id x = pk) (comments d) = [c]"
  shows "\<exists>d'. approve d u pk = Inr d'
    \<and> filter (\<lambda>x. comment_id x = pk) (comments d') = [c\<lparr> approved := True \<rparr>]
    \<and> approve d' u pk = Inr d'
    \<and> (approved c \<longrightarrow> d' = d)
    \<and> (\<not> approved c \<and> comment_post c = post_id P \<longrightarrow>
          get_comments_count d' P = get_comments_count d P + 1)"
proof -
  define d' where "d' = d\<lparr> comments := comment_save (c\<lparr> approved := True \<rparr>) (comments d) \<rparr>"
  have idc: "comment_id c = pk"
    using filter_singleton [OF assms(3)] by simp
  have auth: "check_permissions [IsAuthenticated] u = Inr ()"
    using assms(1) by (rule get_profile_authenticated)
  have prof': "get_profile d' u = Inr profile"
    using assms(1) by (cases u) (simp_all add: d'_def)
  have first: "approve d u pk = Inr d'"
    using assms(1,2,3) auth by (simp add: approve_def approve_patch_def get_object_or_404_def d'_def)
  have look: "filter (\<lambda>x. comment_id x = pk) (comments d') = [c\<lparr> approved := True \<rparr>]"
    using comment_save_lookup [of "c\<lparr> approved := True \<rparr>" "comments d" c] assms(3) idc
    by (simp add: d'_def)
  have second: "approve d' u pk = Inr d'"
    using prof' assms(2) look auth comment_save_twice [of "c\<lparr> approved := True \<rparr>" "comments d"]
    by (simp add: approve_def approve_patch_def get_object_or_404_def d'_def)
  have noop: "approved c \<longrightarrow> d' = d"
  proof
    assume "approved c"
    then have "c\<lparr> approved := True \<rparr> = c" by simp
    then show "d' = d"
      using comment_save_same [of c "comments d"] assms(3) idc by (simp add: d'_def)
  qed
  have cnt: "\<not> approved c \<and> comment_post c = post_id P \<longrightarrow>
      get_comments_count d' P = get_comments_count d P + 1"
    using count_after_approval [of c "comments d" "post_id P"] assms(3) idc
    by (simp add: get_comments_count_def d'_def)
  from first look second noop cnt show ?thesis by blast
qed

theorem approve_sets_flag_and_is_idempotent_witness:
  "get_profile db0 (Authenticated alice) = Inr \<lparr> profile_user = 1, is_blog_admin = True \<rparr>
   \<and> filter (\<lambda>x. comment_id x = 1) (comments db0) = [comment1]
   \<and> \<not> approved comment1 \<and> comment_post comment1 = post_id post1
   \<and> get_comments_count db0 post1 = 1
   \<and> (\<exists>d'. approve db0 (Authenticated alice) 1 = Inr d'
         \<and> approve d' (Authenticated alice) 1 = Inr d'
         \<and> get_comments_count d' post1 = 2)"
proof -
  have c1: "\<not> approved comment1 \<and> comment_post comment1 = post_id post1"
    by (simp add: comment1_def post1_def)
  from approve_sets_flag_and_is_idempotent [OF db0_profile_alice _ db0_comment1, of post1]
  obtain d' where "approve db0 (Authenticated alice) 1 = Inr d'"
    and "approve d' (Authenticated alice) 1 = Inr d'"
    and "\<not> approved comment1 \<and> comment_post comment1 = post_id post1 \<longrightarrow>
          get_comments_count d' post1 = get_comments_count db0 post1 + 1"
    by auto
  with c1 db0_count_post1 have "approve db0 (Authenticated alice) 1 = Inr d'
         \<and> approve d' (Authenticated alice) 1 = Inr d'
         \<and> get_comments_count d' post1 = 2" by simp
  then show ?thesis using db0_profile_alice db0_comment1 c1 db0_count_post1 by blast
qed

section \<open>Operations reserved to admins\<close>




section \<open>Updating and deleting posts and comments\<close>

lemma post_detail_recursion:
  assumes "filter (\<lambda>p. post_id p = pk) (posts d) = [p]" and "m \<in> {PUT, PATCH, DELETE}"
  shows "post_detail_get_permissions depth d u m pk = Inl RecursionError
       \<and> post_detail_get_object depth d u m pk = Inl RecursionError"
proof (induction depth)
  case 0
  show ?case by simp
next
  case (Suc n)
  from Suc assms(2) have "post_detail_get_permissions (Suc n) d u m pk = Inl RecursionError"
    by simp
  moreover from Suc assms(1) have "post_detail_get_object (Suc n) d u m pk = Inl RecursionError"
    by (simp add: get_object_or_404_def)
  ultimately show ?case by simp
qed

lemma comment_detail_recursion:
  assumes "filter (\<lambda>c. comment_id c = pk) (comments d) = [c]"
  shows "comment_detail_get_permissions depth d u m pk = Inl RecursionError
       \<and> comment_detail_get_object depth d u m pk = Inl RecursionError"
proof (induction depth)
  case 0
  show ?case by simp
next
  case (Suc n)
  from Suc have "comment_detail_get_permissions (Suc n) d u m pk = Inl RecursionError"
    by simp
  moreover from Suc assms(1) have "comment_detail_get_object (Suc n) d u m pk = Inl RecursionError"
    by (simp add: get_object_or_404_def)
  ultimately show ?case by simp
qed

text \<open>
  C5 (what the code does). The claim asks that the author of a post or comment, and a
  blog admin, may update and delete it, and that everyone else gets PermissionDenied.
  In the code \<^verbatim>\<open>get_permissions\<close> calls \<^verbatim>\<open>get_object\<close>, which calls \<^verbatim>\<open>get_permissions\<close>
  again before it returns: for a post or comment that exists, an update or a delete ends
  in RecursionError for every actor and every depth of the call stack, the author and
  the admins included, before the comparison with the author is reached.
\<close>

theorem mutation_of_post_or_comment_never_permitted:
  "(filter (\<lambda>p. post_id p = pk) (posts d) = [p] \<and> m \<in> {PUT, PATCH} \<longrightarrow>
      post_update depth now d u m pk pbody = Inl RecursionError
      \<and> post_destroy depth d u pk = Inl RecursionError)
   \<and> (filter (\<lambda>c. comment_id c = ck) (comments d) = [c] \<and> m \<in> {PUT, PATCH} \<longrightarrow>
      comment_update depth d u m ck cbody = Inl RecursionError
      \<and> comment_destroy depth d u ck = Inl RecursionError)"
  using post_detail_recursion [of pk d p m depth u]
    post_detail_recursion [of pk d p DELETE depth u]
    comment_detail_recursion [of ck d c depth u m]
    comment_detail_recursion [of ck d c depth u DELETE]
  by (auto simp: post_update_def post_destroy_def comment_update_def comment_destroy_def)

theorem mutation_of_post_or_comment_never_permitted_witness:
  "filter (\<lambda>p. post_id p = 1) (posts db0) = [post1] \<and> PUT \<in> {PUT, PATCH}
   \<and> post_author post1 = user_id alice
   \<and> post_update 1000 7 db0 (Authenticated alice) PUT 1 None = Inl RecursionError
   \<and> post_destroy 1000 db0 (Authenticated alice) 1 = Inl RecursionError
   \<and> filter (\<lambda>c. comment_id c = 1) (comments db0) = [comment1]
   \<and> comment_author comment1 = user_id bob
   \<and> comment_update 1000 db0 (Authenticated bob) PUT 1 None = Inl RecursionError
   \<and> comment_destroy 1000 db0 (Authenticated bob) 1 = Inl RecursionError"
proof -
  have h: "post_author post1 = user_id alice" "comment_author comment1 = user_id bob"
    by (simp_all add: post1_def alice_def comment1_def bob_def)
  note a = mutation_of_post_or_comment_never_permitted
      [of 1 db0 post1 PUT 1000 7 "Authenticated alice" None 1 comment1 None]
  note b = mutation_of_post_or_comment_never_permitted
      [of 1 db0 post1 PUT 1000 7 "Authenticated bob" None 1 comment1 None]
  have a1: "post_update 1000 7 db0 (Authenticated alice) PUT 1 None = Inl RecursionError
     \<and> post_destroy 1000 db0 (Authenticated alice) 1 = Inl RecursionError"
    using a db0_post1 by simp
  have b1: "comment_update 1000 db0 (Authenticated bob) PUT 1 None = Inl RecursionError
     \<and> comment_destroy 1000 db0 (Authenticated bob) 1 = Inl RecursionError"
    using b db0_comment1 by simp
  from h a1 b1 db0_post1 db0_comment1 show ?thesis by simp
qed

section \<open>Creating a comment\<close>



section \<open>Likes: create and delete\<close>

lemma fold_max_upper: "x \<in> set ids \<Longrightarrow> x \<le> fold max ids (a::nat)"
proof (induction ids arbitrary: a)
  case Nil
  then show ?case by simp
next
  case (Cons y ys)
  have mono: "\<And>b. b \<le> fold max ys b"
  proof -
    fix b show "b \<le> fold max ys (b::nat)"
      by (induction ys arbitrary: b) (auto intro: order_trans [OF max.cobounded2])
  qed
  show ?case
  proof (cases "x = y")
    case True
    have "y \<le> max y a" by simp
    also have "\<dots> \<le> fold max ys (max y a)" by (rule mono)
    finally show ?thesis using True by simp
  next
    case False
    with Cons.prems have "x \<in> set ys" by simp
    from Cons.IH [OF this] show ?thesis by simp
  qed
qed

lemma next_id_fresh: "next_id ids \<notin> set ids"
proof
  assume "next_id ids \<in> set ids"
  then have "next_id ids \<le> fold max ids 0" by (rule fold_max_upper)
  then show False by (simp add: next_id_def)
qed

lemma delete_by_id_removes_one:
  "distinct (map like_id rows) \<Longrightarrow> l \<in> set rows \<Longrightarrow>
   mset rows = mset (filter (\<lambda>x. like_id x \<noteq> like_id l) rows) + {#l#}"
proof (induction rows)
  case Nil
  then show ?case by simp
next
  case (Cons x xs)
  show ?case
  proof (cases "x = l")
    case True
    with Cons.prems have "like_id l \<notin> like_id ` set xs" by simp
    then have "\<forall>y \<in> set xs. like_id y \<noteq> like_id l" by (metis imageI)
    then have "filter (\<lambda>x. like_id x \<noteq> like_id l) xs = xs" by (simp add: filter_id_conv)
    with True show ?thesis by simp
  next
    case False
    with Cons.prems have in_xs: "l \<in> set xs" by simp
    with Cons.prems have "like_id x \<noteq> like_id l" by (metis distinct.simps(2) imageI list.simps(9) set_map)
    with Cons in_xs show ?thesis by simp
  qed
qed

text \<open>
  C2 (as amended). For an authenticated actor and an existing post: when a like of the
  pair exists, creating a like fails with ValidationError (HTTP 400; the code raises no
  conflict error), and when none exists it appends exactly one like of the pair, after
  which the pair has exactly one like. Deleting fails with Http404 when the pair has no
  like; when it has its one like, deleting removes the row with that like's key (exactly
  that row when keys are distinct), the pair has no like afterwards, and a second delete
  fails with Http404.
\<close>

theorem like_create_and_delete:
  assumes "filter (\<lambda>p. post_id p = pid) (posts d) = [P]"
  shows "(likes_of d pid usr \<noteq> [] \<longrightarrow>
            like_create now d (Authenticated usr) pid = Inl ValidationError)
       \<and> (likes_of d pid usr = [] \<longrightarrow>
            (\<exists>d' l. like_create now d (Authenticated usr) pid = Inr d'
                \<and> likes d' = likes d @ [l] \<and> like_post l = pid \<and> like_user l = user_id usr
                \<and> likes_of d' pid usr = [l])
            \<and> like_delete d (Authenticated usr) pid = Inl Http404)
       \<and> (likes_of d pid usr = [l] \<longrightarrow>
            (\<exists>d'. like_delete d (Authenticated usr) pid = Inr d'
                \<and> likes d' = filter (\<lambda>x. like_id x \<noteq> like_id l) (likes d)
                \<and> (distinct (map like_id (likes d)) \<longrightarrow> mset (likes d) = mset (likes d') + {#l#})
                \<and> likes_of d' pid usr = []
                \<and> like_delete d' (Authenticated usr) pid = Inl Http404))"
proof -
  have pid: "post_id P = pid"
    using filter_singleton [OF assms] by simp
  have post: "get_object_or_404 (filter (\<lambda>p. post_id p = pid) (posts d)) = Inr P"
    using assms by (simp add: get_object_or_404_def)
  have dup: "likes_of d pid usr \<noteq> [] \<Longrightarrow>
      like_create now d (Authenticated usr) pid = Inl ValidationError"
    using post pid by (simp add: like_create_def like_perform_create_def likes_of_def)
  have ins: "likes_of d pid usr = [] \<Longrightarrow>
      (\<exists>d' l. like_create now d (Authenticated usr) pid = Inr d'
                \<and> likes d' = likes d @ [l] \<and> like_post l = pid \<and> like_user l = user_id usr
                \<and> likes_of d' pid usr = [l])"
    using post pid by (simp add: like_create_def like_perform_create_def likes_of_def)
  have nf: "likes_of d pid usr = [] \<Longrightarrow> like_delete d (Authenticated usr) pid = Inl Http404"
    using post pid by (simp add: like_delete_def like_get_object_def likes_of_def get_object_or_404_def)
  have del: "likes_of d pid usr = [l] \<Longrightarrow>
      (\<exists>d'. like_delete d (Authenticated usr) pid = Inr d'
                \<and> likes d' = filter (\<lambda>x. like_id x \<noteq> like_id l) (likes d)
                \<and> (distinct (map like_id (likes d)) \<longrightarrow> mset (likes d) = mset (likes d') + {#l#})
                \<and> likes_of d' pid usr = []
                \<and> like_delete d' (Authenticated usr) pid = Inl Http404)"
  proof -
    assume one: "likes_of d pid usr = [l]"
    define d' where "d' = d\<lparr> likes := filter (\<lambda>x. like_id x \<noteq> like_id l) (likes d) \<rparr>"
    from one have lin: "l \<in> set (likes d)"
      using filter_singleton [of "\<lambda>l. like_post l = pid \<and> like_user l = user_id usr" "likes d" l]
      by (simp add: likes_of_def)
    have r: "like_delete d (Authenticated usr) pid = Inr d'"
      using one post pid
      by (simp add: like_delete_def like_get_object_def likes_of_def get_object_or_404_def d'_def)
    have gone: "likes_of d' pid usr = []"
    proof -
      have "likes_of d' pid usr = filter (\<lambda>x. like_id x \<noteq> like_id l) (likes_of d pid usr)"
        by (simp add: likes_of_def d'_def conj_commute)
      with one show ?thesis by simp
    qed
    have post': "get_object_or_404 (filter (\<lambda>p. post_id p = pid) (posts d')) = Inr P"
      using post by (simp add: d'_def)
    have again: "like_delete d' (Authenticated usr) pid = Inl Http404"
      using gone post' pid
      by (simp add: like_delete_def like_get_object_def likes_of_def get_object_or_404_def)
    have ms: "distinct (map like_id (likes d)) \<longrightarrow> mset (likes d) = mset (likes d') + {#l#}"
      using delete_by_id_removes_one [of "likes d" l] lin by (simp add: d'_def)
    from r gone again ms show ?thesis by (auto simp: d'_def)
  qed
  from dup ins nf del show ?thesis by blast
qed

lemma db0_likes_bob: "likes_of db0 1 bob = [like1]"
  by (simp add: likes_of_def db0_def like1_def bob_def)

lemma db0_likes_alice: "likes_of db0 1 alice = []"
  by (simp add: likes_of_def db0_def like1_def alice_def)

theorem like_create_and_delete_witness:
  "filter (\<lambda>p. post_id p = 1) (posts db0) = [post1]
   \<and> likes_of db0 1 bob = [like1] \<and> likes_of db0 1 alice = []
   \<and> like_create 7 db0 (Authenticated bob) 1 = Inl ValidationError
   \<and> (\<exists>d'. like_delete db0 (Authenticated bob) 1 = Inr d'
         \<and> likes_of d' 1 bob = [] \<and> like_delete d' (Authenticated bob) 1 = Inl Http404)
   \<and> (\<exists>d' l. like_create 7 db0 (Authenticated alice) 1 = Inr d' \<and> likes_of d' 1 alice = [l])
   \<and> like_delete db0 (Authenticated alice) 1 = Inl Http404"
proof -
  note b = like_create_and_delete [OF db0_post1, of bob 7 like1]
  note a = like_create_and_delete [OF db0_post1, of alice 7 like1]
  have b1: "like_create 7 db0 (Authenticated bob) 1 = Inl ValidationError"
    using b db0_likes_bob by simp
  have b2: "\<exists>d'. like_delete db0 (Authenticated bob) 1 = Inr d'
         \<and> likes_of d' 1 bob = [] \<and> like_delete d' (Authenticated bob) 1 = Inl Http404"
    using b db0_likes_bob by blast
  have a1: "\<exists>d' l. like_create 7 db0 (Authenticated alice) 1 = Inr d' \<and> likes_of d' 1 alice = [l]"
    using a db0_likes_alice by blast
  have a2: "like_delete db0 (Authenticated alice) 1 = Inl Http404"
    using a db0_likes_alice by blast
  from b1 b2 a1 a2 db0_post1 db0_likes_bob db0_likes_alice show ?thesis by blast
qed

theorem like_create_and_delete_counterexample:
  "likes_of db0 1 bob \<noteq> []
   \<and> like_create 7 db0 (Authenticated bob) 1 = Inl ValidationError
   \<and> like_create 7 db0 (Authenticated bob) 1 \<noteq> Inl ConflictError"
proof -
  have "like_create 7 db0 (Authenticated bob) 1 = Inl ValidationError"
    using db0_post1 db0_likes_bob
    by (simp add: like_create_def like_perform_create_def get_object_or_404_def likes_of_def
        post1_def)
  with db0_likes_bob show ?thesis by simp
qed

section \<open>Listing the comments of a post\<close>

lemma order_by_desc_sorted:
  "sorted_wrt (\<lambda>a b. key b \<le> key a) (order_by_desc key rows)"
proof -
  have "sorted (map key (sort_key key rows))" by (rule sorted_sort_key)
  then have "sorted_wrt (\<lambda>a b. key a \<le> key b) (sort_key key rows)"
    by (simp add: sorted_wrt_map)
  then show ?thesis
    by (simp add: order_by_desc_def sorted_wrt_rev)
qed

lemma mset_order_by_desc: "mset (order_by_desc key rows) = mset rows"
  by (simp add: order_by_desc_def)


text \<open>
  C3 (as amended). For an authenticated caller and every \<open>post_id\<close>, listing the
  comments succeeds with exactly the comments that refer to that post and are approved
  (each once), ordered by \<open>created_at\<close> descending. It never looks the post up: when no
  post with that id exists and every comment refers to an existing post, the result is
  the empty list, not an error.
\<close>

theorem comment_list_approved_sorted_no_404:
  "comment_list d (Authenticated usr) pid = Inr (comment_list_get_queryset d pid)
   \<and> mset (comment_list_get_queryset d pid) =
       mset (filter (\<lambda>c. comment_post c = pid \<and> approved c) (comments d))
   \<and> sorted_wrt (\<lambda>a b. comment_created_at b \<le> comment_created_at a)
       (comment_list_get_queryset d pid)
   \<and> (filter (\<lambda>p. post_id p = pid) (posts d) = []
        \<and> (\<forall>c \<in> set (comments d). comment_post c \<in> post_id ` set (posts d))
      \<longrightarrow> comment_list d (Authenticated usr) pid = Inr [])"
proof -
  have r: "comment_list d (Authenticated usr) pid = Inr (comment_list_get_queryset d pid)"
    by (simp add: comment_list_def)
  have m: "mset (comment_list_get_queryset d pid) =
       mset (filter (\<lambda>c. comment_post c = pid \<and> approved c) (comments d))"
    by (simp add: comment_list_get_queryset_def mset_order_by_desc)
  have s: "sorted_wrt (\<lambda>a b. comment_created_at b \<le> comment_created_at a)
       (comment_list_get_queryset d pid)"
    unfolding comment_list_get_queryset_def by (rule order_by_desc_sorted)
  have e: "filter (\<lambda>p. post_id p = pid) (posts d) = []
        \<and> (\<forall>c \<in> set (comments d). comment_post c \<in> post_id ` set (posts d))
      \<longrightarrow> comment_list d (Authenticated usr) pid = Inr []"
  proof
    assume a: "filter (\<lambda>p. post_id p = pid) (posts d) = []
        \<and> (\<forall>c \<in> set (comments d). comment_post c \<in> post_id ` set (posts d))"
    then have "pid \<notin> post_id ` set (posts d)"
      by (auto simp: filter_empty_conv)
    with a have "\<forall>c \<in> set (comments d). comment_post c \<noteq> pid" by metis
    then have "filter (\<lambda>c. comment_post c = pid \<and> approved c) (comments d) = []"
      by (simp add: filter_empty_conv)
    then show "comment_list d (Authenticated usr) pid = Inr []"
      by (simp add: comment_list_def comment_list_get_queryset_def order_by_desc_def)
  qed
  from r m s e show ?thesis by simp
qed

lemma db0_no_post_99: "filter (\<lambda>p. post_id p = 99) (posts db0) = []"
  by (simp add: db0_def post1_def post2_def post3_def)

lemma db0_comments_refer_to_posts:
  "\<forall>c \<in> set (comments db0). comment_post c \<in> post_id ` set (posts db0)"
  by (simp add: db0_def comment1_def comment2_def post1_def)

theorem comment_list_approved_sorted_no_404_witness:
  "filter (\<lambda>p. post_id p = 99) (posts db0) = []
   \<and> comment_post ` set (comments db0) \<subseteq> post_id ` set (posts db0)
   \<and> comment_list db0 (Authenticated bob) 99 = Inr []
   \<and> mset (comment_list_get_queryset db0 1) = {#comment2#}"
proof -
  note t99 = comment_list_approved_sorted_no_404 [of db0 bob 99]
  note t1 = comment_list_approved_sorted_no_404 [of db0 bob 1]
  have a: "comment_list db0 (Authenticated bob) 99 = Inr []"
    using t99 db0_no_post_99 db0_comments_refer_to_posts by blast
  have f: "filter (\<lambda>c. comment_post c = 1 \<and> approved c) (comments db0) = [comment2]"
    by (simp add: db0_def comment1_def comment2_def)
  from t1 have "mset (comment_list_get_queryset db0 1) =
      mset (filter (\<lambda>c. comment_post c = 1 \<and> approved c) (comments db0))" by blast
  then have b: "mset (comment_list_get_queryset db0 1) = {#comment2#}"
    unfolding f by simp
  have c: "comment_post ` set (comments db0) \<subseteq> post_id ` set (posts db0)"
    using db0_comments_refer_to_posts by blast
  from a b c db0_no_post_99 show ?thesis by blast
qed

theorem comment_list_approved_sorted_no_404_counterexample:
  "99 \<notin> set (map post_id (posts db0))
   \<and> comment_list db0 (Authenticated bob) 99 = Inr []
   \<and> comment_list db0 (Authenticated bob) 99 \<noteq> Inl Http404"
proof -
  have "filter (\<lambda>c. comment_post c = 99 \<and> approved c) (comments db0) = []"
    by (simp add: db0_def comment1_def comment2_def)
  then have "comment_list db0 (Authenticated bob) 99 = Inr []"
    by (simp add: comment_list_def comment_list_get_queryset_def order_by_desc_def)
  moreover have "99 \<notin> set (map post_id (posts db0))"
    by (simp add: db0_def post1_def post2_def post3_def)
  ultimately show ?thesis by simp
qed

section \<open>Registration\<close>

text \<open>
  C4 (as amended). Registration answers with the validation error (HTTP 400, never a
  conflict error) when the requested username already exists, and also when any of
  \<open>email\<close>, \<open>first_name\<close>, \<open>last_name\<close> is absent. When all required fields are present,
  the field validators accept the body and the username is unused, it appends one user
  with a fresh key and the requested name fields, and one profile for that user whose
  \<open>is_blog_admin\<close> is True exactly when the body asked for True; when every earlier
  profile belongs to an existing user, that profile is the only one of the new user.
\<close>

theorem register_outcomes:
  "(reg_username r = Some un \<and> un \<in> set (map username (users d)) \<longrightarrow>
       register_post fv d r = Inl ValidationError)
   \<and> (reg_email r = None \<or> reg_first_name r = None \<or> reg_last_name r = None \<longrightarrow>
       register_post fv d r = Inl ValidationError)
   \<and> (reg_username r = Some un \<and> reg_password r = Some pw \<and> reg_email r = Some em
        \<and> reg_first_name r = Some fn \<and> reg_last_name r = Some ln \<and> fv r
        \<and> un \<notin> set (map username (users d)) \<longrightarrow>
       (\<exists>d' u p. register_post fv d r = Inr (d', u)
          \<and> users d' = users d @ [u] \<and> profiles d' = profiles d @ [p]
          \<and> username u = un \<and> email u = em \<and> first_name u = fn \<and> last_name u = ln
          \<and> user_id u \<notin> set (map user_id (users d))
          \<and> profile_user p = user_id u
          \<and> is_blog_admin p = (reg_is_blog_admin r = Some True)
          \<and> ((\<forall>q \<in> set (profiles d). profile_user q \<in> set (map user_id (users d))) \<longrightarrow>
                filter (\<lambda>q. profile_user q = user_id u) (profiles d') = [p])))"
proof -
  have dup: "reg_username r = Some un \<and> un \<in> set (map username (users d)) \<longrightarrow>
       register_post fv d r = Inl ValidationError"
    by (auto simp: register_post_def register_is_valid_def split: option.splits)
  have missing: "reg_email r = None \<or> reg_first_name r = None \<or> reg_last_name r = None \<longrightarrow>
       register_post fv d r = Inl ValidationError"
    by (auto simp: register_post_def register_is_valid_def split: option.splits)
  have ok: "reg_username r = Some un \<and> reg_password r = Some pw \<and> reg_email r = Some em
        \<and> reg_first_name r = Some fn \<and> reg_last_name r = Some ln \<and> fv r
        \<and> un \<notin> set (map username (users d)) \<longrightarrow>
       (\<exists>d' u p. register_post fv d r = Inr (d', u)
          \<and> users d' = users d @ [u] \<and> profiles d' = profiles d @ [p]
          \<and> username u = un \<and> email u = em \<and> first_name u = fn \<and> last_name u = ln
          \<and> user_id u \<notin> set (map user_id (users d))
          \<and> profile_user p = user_id u
          \<and> is_blog_admin p = (reg_is_blog_admin r = Some True)
          \<and> ((\<forall>q \<in> set (profiles d). profile_user q \<in> set (map user_id (users d))) \<longrightarrow>
                filter (\<lambda>q. profile_user q = user_id u) (profiles d') = [p]))"
  proof
    assume a: "reg_username r = Some un \<and> reg_password r = Some pw \<and> reg_email r = Some em
        \<and> reg_first_name r = Some fn \<and> reg_last_name r = Some ln \<and> fv r
        \<and> un \<notin> set (map username (users d))"
    define adm where "adm = (case reg_is_blog_admin r of None \<Rightarrow> False | Some b \<Rightarrow> b)"
    define u where "u = \<lparr> user_id = next_id (map user_id (users d)), username = un,
        password = pw, email = em, first_name = fn, last_name = ln, is_staff = False \<rparr>"
    define p where "p = \<lparr> profile_user = user_id u, is_blog_admin = adm \<rparr>"
    define d' where "d' = d\<lparr> users := users d @ [u], profiles := profiles d @ [p] \<rparr>"
    have res: "register_post fv d r = Inr (d', u)"
      using a by (simp add: register_post_def register_is_valid_def register_create_def
          Let_def d'_def u_def p_def adm_def)
    have fresh: "user_id u \<notin> set (map user_id (users d))"
      using next_id_fresh [of "map user_id (users d)"] by (simp add: u_def)
    have adm: "is_blog_admin p = (reg_is_blog_admin r = Some True)"
      by (cases "reg_is_blog_admin r") (simp_all add: p_def adm_def)
    have one: "(\<forall>q \<in> set (profiles d). profile_user q \<in> set (map user_id (users d))) \<longrightarrow>
                filter (\<lambda>q. profile_user q = user_id u) (profiles d') = [p]"
    proof
      assume "\<forall>q \<in> set (profiles d). profile_user q \<in> set (map user_id (users d))"
      with fresh have "\<forall>q \<in> set (profiles d). profile_user q \<noteq> user_id u" by metis
      then have "filter (\<lambda>q. profile_user q = user_id u) (profiles d) = []"
        by (simp add: filter_empty_conv)
      then show "filter (\<lambda>q. profile_user q = user_id u) (profiles d') = [p]"
        by (simp add: d'_def p_def)
    qed
    have fields: "users d' = users d @ [u]" "profiles d' = profiles d @ [p]"
      "username u = un" "email u = em" "first_name u = fn" "last_name u = ln"
      "profile_user p = user_id u"
      by (simp_all add: d'_def u_def p_def)
    from res fresh adm one fields show "\<exists>d' u p. register_post fv d r = Inr (d', u)
          \<and> users d' = users d @ [u] \<and> profiles d' = profiles d @ [p]
          \<and> username u = un \<and> email u = em \<and> first_name u = fn \<and> last_name u = ln
          \<and> user_id u \<notin> set (map user_id (users d))
          \<and> profile_user p = user_id u
          \<and> is_blog_admin p = (reg_is_blog_admin r = Some True)
          \<and> ((\<forall>q \<in> set (profiles d). profile_user q \<in> set (map user_id (users d))) \<longrightarrow>
                filter (\<lambda>q. profile_user q = user_id u) (profiles d') = [p])"
      by blast
  qed
  from dup missing ok show ?thesis by blast
qed

lemma db0_profiles_refer_to_users:
  "\<forall>q \<in> set (profiles db0). profile_user q \<in> set (map user_id (users db0))"
  by (simp add: db0_def alice_def bob_def carol_def)

lemma db0_dave_unused: "''dave'' \<notin> set (map username (users db0))"
  by (simp add: db0_def alice_def bob_def carol_def)

lemma db0_alice_used: "''alice'' \<in> set (map username (users db0))"
  by (simp add: db0_def alice_def)

theorem register_outcomes_witness:
  "''dave'' \<notin> set (map username (users db0)) \<and> any_fields reg_dave
   \<and> profile_user ` set (profiles db0) \<subseteq> set (map user_id (users db0))
   \<and> (\<exists>d' u p. register_post any_fields db0 reg_dave = Inr (d', u)
         \<and> users d' = users db0 @ [u] \<and> username u = ''dave''
         \<and> filter (\<lambda>q. profile_user q = user_id u) (profiles d') = [p]
         \<and> \<not> is_blog_admin p)
   \<and> ''alice'' \<in> set (map username (users db0))
   \<and> register_post any_fields db0 (reg_dave\<lparr> reg_username := Some ''alice'' \<rparr>)
        = Inl ValidationError
   \<and> register_post any_fields db0 (reg_dave\<lparr> reg_email := None \<rparr>) = Inl ValidationError"
proof -
  note t = register_outcomes [of reg_dave "''dave''" db0 any_fields "''pw''" "''d@x.io''"
      "''Dave''" "''D''"]
  have f: "reg_username reg_dave = Some ''dave'' \<and> reg_password reg_dave = Some ''pw''
        \<and> reg_email reg_dave = Some ''d@x.io''
        \<and> reg_first_name reg_dave = Some ''Dave'' \<and> reg_last_name reg_dave = Some ''D''
        \<and> any_fields reg_dave \<and> reg_is_blog_admin reg_dave \<noteq> Some True"
    by (simp add: reg_dave_def any_fields_def)
  from t f db0_dave_unused db0_profiles_refer_to_users
  have ok: "\<exists>d' u p. register_post any_fields db0 reg_dave = Inr (d', u)
         \<and> users d' = users db0 @ [u] \<and> username u = ''dave''
         \<and> filter (\<lambda>q. profile_user q = user_id u) (profiles d') = [p]
         \<and> \<not> is_blog_admin p"
    by (metis (no_types, lifting))
  have dup: "register_post any_fields db0 (reg_dave\<lparr> reg_username := Some ''alice'' \<rparr>)
        = Inl ValidationError"
    using register_outcomes [of "reg_dave\<lparr> reg_username := Some ''alice'' \<rparr>" "''alice''" db0
        any_fields] db0_alice_used by simp
  have mis: "register_post any_fields db0 (reg_dave\<lparr> reg_email := None \<rparr>) = Inl ValidationError"
    using register_outcomes [of "reg_dave\<lparr> reg_email := None \<rparr>" "''dave''" db0 any_fields]
    by simp
  have sub: "profile_user ` set (profiles db0) \<subseteq> set (map user_id (users db0))"
    using db0_profiles_refer_to_users by blast
  from ok dup mis f db0_dave_unused db0_alice_used sub
  show ?thesis by blast
qed

theorem register_outcomes_counterexample:
  "''alice'' \<in> set (map username (users db0))
   \<and> register_post any_fields db0 (reg_dave\<lparr> reg_username := Some ''alice'' \<rparr>)
        = Inl ValidationError
   \<and> register_post any_fields db0 (reg_dave\<lparr> reg_username := Some ''alice'' \<rparr>)
        \<noteq> Inl ConflictError"
proof -
  have "register_post any_fields db0 (reg_dave\<lparr> reg_username := Some ''alice'' \<rparr>)
        = Inl ValidationError"
    using db0_alice_used
    by (simp add: register_post_def register_is_valid_def reg_dave_def)
  with db0_alice_used show ?thesis by simp
qed

section \<open>Latest posts\<close>





section \<open>Listing published posts\<close>









end
